theory Spec2Isabelle
  imports Main "HOL-Library.Word"
begin

unbundle bit_operations_syntax

section \<open>Data model of \<open>utils/decode.py\<close>\<close>

text \<open>
  A Python \<open>bytes\<close> object is a list of bytes; iterating over it yields the integers
  \<open>0 .. 255\<close> (\<open>uint\<close> of the byte). Python integers are unbounded and are modelled
  as \<open>int\<close>. The exceptions the script can raise are the constructors of \<open>error\<close>:
  \<open>OverflowError\<close> from \<open>int.to_bytes\<close>, \<open>StructError\<close> (\<open>struct.error\<close>) from
  \<open>struct.unpack\<close> and \<open>struct.unpack_from\<close>, \<open>ZlibError\<close> (\<open>zlib.error\<close>) from
  \<open>zlib.decompress\<close> and \<open>UnicodeDecodeError\<close> from \<open>bytes.decode\<close>.
\<close>

type_synonym byte = "8 word"
type_synonym bytes = "byte list"

datatype error = OverflowError | StructError | ZlibError | UnicodeDecodeError

text \<open>\<open>Header = namedtuple('Header', ['signature','size','offset','compressed_size'])\<close>\<close>

record Header =
  signature :: int
  size_H :: int
  offset_H :: int
  compressed_size :: int

text \<open>\<open>Entry = namedtuple('Entry', ['path_offset','offset','size'])\<close>\<close>

record Entry =
  path_offset :: int
  offset_E :: int
  size_E :: int

section \<open>The keystream unmasker: \<open>decode\<close>\<close>

text \<open>
  \<open>n.to_bytes(1)\<close> (length 1, unsigned; the byte order defaults to \<open>big\<close> from
  Python 3.11 on): the one byte of \<open>n\<close>, or \<open>OverflowError\<close> when \<open>n\<close> is negative
  or does not fit in a byte.
\<close>

definition to_bytes1 :: "int \<Rightarrow> error + bytes" where
  "to_bytes1 n = (if 0 \<le> n \<and> n < 256 then Inr [word_of_int n] else Inl OverflowError)"

text \<open>
  The body of \<open>decode\<close>: the loop \<open>for b in buf\<close> with the two variables it updates,
  \<open>seed\<close> and \<open>out\<close>.
  \<^verbatim>\<open>
  seed = (seed * 0x41C64E6D + 12345) & 0xFFFFFFFF
  out += (b ^ (seed >> 24)).to_bytes(1)
  \<close>
\<close>

fun decode_loop :: "bytes \<Rightarrow> int \<Rightarrow> bytes \<Rightarrow> error + bytes" where
  "decode_loop [] seed out = Inr out"
| "decode_loop (b # buf) seed out =
     (let seed' = (seed * 0x41C64E6D + 12345) AND 0xFFFFFFFF in
      case to_bytes1 (uint b XOR drop_bit 24 seed') of
        Inl e \<Rightarrow> Inl e
      | Inr x \<Rightarrow> decode_loop buf seed' (out @ x))"

text \<open>\<open>def decode(buf, offset=0)\<close>: \<open>seed = 0x19000000 + offset\<close>, \<open>out = b''\<close>.\<close>

definition decode :: "bytes \<Rightarrow> int \<Rightarrow> error + bytes" where
  "decode buf offset = decode_loop buf (0x19000000 + offset) []"

subsection \<open>The unmasker as the specification words it\<close>

text \<open>
  A 32-bit unsigned state; one step of the linear congruential generator, the mask
  byte (the top 8 bits of the updated state) and the XOR, byte by byte in order.
\<close>

definition lcg_next :: "32 word \<Rightarrow> 32 word" where
  "lcg_next s = s * 0x41C64E6D + 12345"

definition mask_byte :: "32 word \<Rightarrow> byte" where
  "mask_byte s = ucast (drop_bit 24 s)"

fun unmask_from :: "32 word \<Rightarrow> bytes \<Rightarrow> bytes" where
  "unmask_from s [] = []"
| "unmask_from s (b # bs) = (b XOR mask_byte (lcg_next s)) # unmask_from (lcg_next s) bs"

definition unmask :: "bytes \<Rightarrow> int \<Rightarrow> bytes" where
  "unmask b o' = unmask_from (word_of_int ((0x19000000 + o') mod 2 ^ 32)) b"

section \<open>Reading binary records: \<open>struct\<close>\<close>

text \<open>
  A run of bytes read as one little-endian unsigned integer (format \<open><I\<close> on four
  bytes).
\<close>

fun le_uint :: "bytes \<Rightarrow> int" where
  "le_uint [] = 0"
| "le_uint (b # bs) = uint b + 256 * le_uint bs"

text \<open>
  The bounds check of \<open>struct.unpack_from(fmt, buffer, offset)\<close> for a format of
  \<open>sz\<close> bytes: a negative offset counts from the end of the buffer, and the call raises
  \<open>struct.error\<close> unless \<open>sz\<close> bytes are available from the offset on. The result is
  the index of the first byte read.
\<close>

definition unpack_from_start :: "nat \<Rightarrow> bytes \<Rightarrow> int \<Rightarrow> error + nat" where
  "unpack_from_start sz buffer offset =
     (let len = int (length buffer) in
      if offset < 0 then
        (if offset + int sz > 0 \<or> offset + len < 0 then Inl StructError
         else Inr (nat (offset + len)))
      else if len - offset < int sz then Inl StructError
      else Inr (nat offset))"

text \<open>\<open>struct.unpack_from('<I', buffer, offset)[0]\<close>\<close>

definition unpack_from_I :: "bytes \<Rightarrow> int \<Rightarrow> error + int" where
  "unpack_from_I buffer offset =
     (case unpack_from_start 4 buffer offset of
        Inl e \<Rightarrow> Inl e
      | Inr k \<Rightarrow> Inr (le_uint (take 4 (drop k buffer))))"

text \<open>\<open>Entry(*struct.unpack_from('<III', buffer, offset))\<close>\<close>

definition unpack_from_III :: "bytes \<Rightarrow> int \<Rightarrow> error + Entry" where
  "unpack_from_III buffer offset =
     (case unpack_from_start 12 buffer offset of
        Inl e \<Rightarrow> Inl e
      | Inr k \<Rightarrow> Inr \<lparr>path_offset = le_uint (take 4 (drop k buffer)),
                       offset_E = le_uint (take 4 (drop (k + 4) buffer)),
                       size_E = le_uint (take 4 (drop (k + 8) buffer))\<rparr>)"

text \<open>
  \<open>struct.unpack_from('s', buffer, offset)[0]\<close>: the format \<open>s\<close> without a count is
  a byte string of length one, so the value is the single byte at the offset.
\<close>

definition unpack_from_s :: "bytes \<Rightarrow> int \<Rightarrow> error + byte" where
  "unpack_from_s buffer offset =
     (case unpack_from_start 1 buffer offset of
        Inl e \<Rightarrow> Inl e
      | Inr k \<Rightarrow> Inr (buffer ! k))"

text \<open>
  \<open>Header(*struct.unpack('<IIII', buffer))\<close>: \<open>struct.unpack\<close> raises
  \<open>struct.error\<close> unless the buffer has exactly the 16 bytes of the format.
\<close>

definition unpack_IIII :: "bytes \<Rightarrow> error + Header" where
  "unpack_IIII buffer =
     (if length buffer \<noteq> 16 then Inl StructError
      else Inr \<lparr>signature = le_uint (take 4 buffer),
                 size_H = le_uint (take 4 (drop 4 buffer)),
                 offset_H = le_uint (take 4 (drop 8 buffer)),
                 compressed_size = le_uint (take 4 (drop 12 buffer))\<rparr>)"

text \<open>
  \<open>.decode('utf-8')\<close> on a byte string of length one: a byte below \<open>0x80\<close> is the
  character with that code point, any other byte alone is not valid UTF-8.
\<close>

definition decode_utf8_byte :: "byte \<Rightarrow> error + string" where
  "decode_utf8_byte b = (if b < 0x80 then Inr [char_of (uint b)] else Inl UnicodeDecodeError)"

text \<open>
  The slice \<open>xs[i:]\<close>: a negative start counts from the end, and a start outside the
  sequence is clamped, so the slice never raises.
\<close>

definition slice_from :: "'a list \<Rightarrow> int \<Rightarrow> 'a list" where
  "slice_from xs i = (if i < 0 then drop (nat (int (length xs) + i)) xs else drop (nat i) xs)"

text \<open>\<open>range(start, stop, step)\<close> for a positive step.\<close>

definition py_range :: "int \<Rightarrow> int \<Rightarrow> int \<Rightarrow> int list" where
  "py_range start stop step =
     map (\<lambda>k. start + int k * step) [0 ..< nat ((stop - start + step - 1) div step)]"

section \<open>The stages of the script\<close>

text \<open>
  The script has no function besides \<open>decode\<close>; its top-level statements are grouped
  here into the stages they implement.
\<close>

subsection \<open>Header decoder\<close>

text \<open>
  \<^verbatim>\<open>
  buf2 = decode(buf[0:16])
  header = Header(*struct.unpack('<IIII', buf2))
  \<close>
\<close>

definition decode_header :: "bytes \<Rightarrow> error + Header" where
  "decode_header buf =
     (case decode (take 16 buf) 0 of
        Inl e \<Rightarrow> Inl e
      | Inr buf2 \<Rightarrow> unpack_IIII buf2)"

subsection \<open>Directory decompressor\<close>

text \<open>
  \<open>zlib.decompress(data, wbits)\<close> belongs to the zlib library, not to the script: the
  inflation itself is the parameter \<open>inflate\<close>, which returns \<open>None\<close> where zlib
  rejects the stream and \<open>zlib.decompress\<close> raises \<open>zlib.error\<close>.
\<close>

definition zlib_decompress :: "(bytes \<Rightarrow> int \<Rightarrow> bytes option) \<Rightarrow> bytes \<Rightarrow> int \<Rightarrow> error + bytes" where
  "zlib_decompress inflate data wbits =
     (case inflate data wbits of None \<Rightarrow> Inl ZlibError | Some d \<Rightarrow> Inr d)"

text \<open>
  \<^verbatim>\<open>
  buf2 = decode(buf[(header.offset):], header.offset)
  dcmp = zlib.decompress(buf2[4:], 31)
  \<close>
\<close>

definition decompress_directory ::
  "(bytes \<Rightarrow> int \<Rightarrow> bytes option) \<Rightarrow> bytes \<Rightarrow> Header \<Rightarrow> error + bytes" where
  "decompress_directory inflate buf header =
     (case decode (slice_from buf (offset_H header)) (offset_H header) of
        Inl e \<Rightarrow> Inl e
      | Inr buf2 \<Rightarrow> zlib_decompress inflate (drop 4 buf2) 31)"

subsection \<open>Directory parser\<close>

text \<open>
  \<^verbatim>\<open>
  for i in range(0, nentries*12, 12):
      entries.append(Entry(*struct.unpack_from('<III', dcmp, i)))
  \<close>
\<close>

fun entries_loop :: "bytes \<Rightarrow> int list \<Rightarrow> Entry list \<Rightarrow> error + Entry list" where
  "entries_loop dcmp [] entries = Inr entries"
| "entries_loop dcmp (i # is) entries =
     (case unpack_from_III dcmp i of
        Inl e \<Rightarrow> Inl e
      | Inr en \<Rightarrow> entries_loop dcmp is (entries @ [en]))"

text \<open>\<open>struct.unpack_from('s', dcmp, e.path_offset)[0].decode('utf-8')\<close>\<close>

definition resolve_path :: "bytes \<Rightarrow> Entry \<Rightarrow> error + string" where
  "resolve_path dcmp e =
     (case unpack_from_s dcmp (path_offset e) of
        Inl err \<Rightarrow> Inl err
      | Inr b \<Rightarrow> decode_utf8_byte b)"

text \<open>
  \<^verbatim>\<open>
  for e in entries:
      paths.append(struct.unpack_from('s', dcmp, e.path_offset)[0].decode('utf-8'))
  \<close>
\<close>

fun paths_loop :: "bytes \<Rightarrow> Entry list \<Rightarrow> string list \<Rightarrow> error + string list" where
  "paths_loop dcmp [] paths = Inr paths"
| "paths_loop dcmp (e # es) paths =
     (case resolve_path dcmp e of
        Inl err \<Rightarrow> Inl err
      | Inr p \<Rightarrow> paths_loop dcmp es (paths @ [p]))"

text \<open>
  \<^verbatim>\<open>
  nentries = struct.unpack_from('<I', dcmp, 0)[0]
  dcmp = dcmp[4:]
  entries = []
  ...
  paths = []
  ...
  \<close>
  The result is the list \<open>paths\<close> that the script prints line by line.
\<close>

definition parse_directory :: "bytes \<Rightarrow> error + string list" where
  "parse_directory dcmp =
     (case unpack_from_I dcmp 0 of
        Inl e \<Rightarrow> Inl e
      | Inr nentries \<Rightarrow>
          (let body = drop 4 dcmp in
           case entries_loop body (py_range 0 (nentries * 12) 12) [] of
             Inl e \<Rightarrow> Inl e
           | Inr entries \<Rightarrow> paths_loop body entries []))"

subsection \<open>The whole script\<close>

definition list_paths :: "(bytes \<Rightarrow> int \<Rightarrow> bytes option) \<Rightarrow> bytes \<Rightarrow> error + string list" where
  "list_paths inflate buf =
     (case decode_header buf of
        Inl e \<Rightarrow> Inl e
      | Inr header \<Rightarrow>
          (case decompress_directory inflate buf header of
             Inl e \<Rightarrow> Inl e
           | Inr dcmp \<Rightarrow> parse_directory dcmp))"

section \<open>The error taxonomy of the specification\<close>

text \<open>
  The specification names three kinds of failure. The script raises Python's own
  exceptions; \<open>spec_error_of\<close> gives the kind each of them falls under: a buffer too
  short for a record and path bytes that are not UTF-8 are format errors, a stream
  that zlib rejects is a decompression error. Nothing in the script raises for an
  offset beyond a buffer, and \<open>OverflowError\<close> has no kind of its own.
\<close>

datatype spec_error = BoundsError | DecompressionError | FormatError

fun spec_error_of :: "error \<Rightarrow> spec_error option" where
  "spec_error_of StructError = Some FormatError"
| "spec_error_of UnicodeDecodeError = Some FormatError"
| "spec_error_of ZlibError = Some DecompressionError"
| "spec_error_of OverflowError = None"

definition fails_with :: "error + 'a \<Rightarrow> spec_error \<Rightarrow> bool" where
  "fails_with r k = (case r of Inl e \<Rightarrow> spec_error_of e = Some k | Inr _ \<Rightarrow> False)"

section \<open>Writing binary records\<close>

text \<open>
  \<open>struct.pack('<I', w)\<close> and \<open>struct.pack('<IIII', s, z, f, c)\<close> for values that fit
  the format: the inverse direction of the header's layout, used to build headers with
  known field values.
\<close>

definition le_bytes32 :: "32 word \<Rightarrow> bytes" where
  "le_bytes32 w = [ucast w, ucast (drop_bit 8 w), ucast (drop_bit 16 w), ucast (drop_bit 24 w)]"

definition pack_header :: "32 word \<Rightarrow> 32 word \<Rightarrow> 32 word \<Rightarrow> 32 word \<Rightarrow> bytes" where
  "pack_header s z f c = le_bytes32 s @ le_bytes32 z @ le_bytes32 f @ le_bytes32 c"

section \<open>A sample archive\<close>

text \<open>
  A directory of two entries, \<open>(24, 100, 7)\<close> and \<open>(28, 107, 9)\<close>, with the string
  table of the strings \<open>abc\<close> and \<open>de\<close>, each ended by a zero byte; the gzip
  stream that zlib produces for it; and the archive that holds the masked header
  (directory at offset 16) followed by the masked region of four bytes and the gzip
  stream.
\<close>

definition sample_dcmp :: bytes where
  "sample_dcmp = [2, 0, 0, 0, 24, 0, 0, 0, 100, 0, 0, 0, 7, 0, 0, 0, 28, 0, 0, 0, 107, 0, 0, 0,
     9, 0, 0, 0, 97, 98, 99, 0, 100, 101, 0]"

definition sample_gzip :: bytes where
  "sample_gzip = [31, 139, 8, 0, 0, 0, 0, 0, 2, 3, 99, 98, 96, 96, 144, 0, 226, 20, 32, 102, 7,
     98, 25, 32, 206, 6, 98, 78, 32, 78, 76, 74, 102, 72, 73, 101, 0, 0, 92, 85, 113, 40, 35,
     0, 0, 0]"

definition sample_archive :: bytes where
  "sample_archive = [245, 85, 31, 79, 64, 19, 187, 6, 228, 129, 252, 50, 5, 151, 111, 190, 193,
     63, 91, 95, 163, 219, 103, 3, 243, 115, 170, 181, 3, 36, 68, 215, 252, 75, 132, 28, 123,
     124, 86, 248, 245, 157, 199, 78, 237, 43, 208, 254, 228, 101, 42, 238, 82, 102, 241, 27,
     185, 76, 133, 220, 42, 250, 49, 15, 132, 81]"

text \<open>
  What \<open>zlib.decompress\<close> does on the two streams of the examples: the gzip stream
  above inflates, with window bits 31, to the sample directory, and the empty stream
  is rejected as truncated. Any other stream is outside the examples and is rejected
  here as well.
\<close>

definition sample_inflate :: "bytes \<Rightarrow> int \<Rightarrow> bytes option" where
  "sample_inflate data wbits = (if data = sample_gzip \<and> wbits = 31 then Some sample_dcmp else None)"

text \<open>The header of the sample archive.\<close>

definition sample_header :: Header where
  "sample_header = \<lparr>signature = 810238288, size_H = 66, offset_H = 16, compressed_size = 46\<rparr>"

subsection \<open>An archive whose path string has no terminator\<close>

text \<open>
  A directory of one entry, \<open>(12, 0, 0)\<close>, whose string table is the three bytes
  \<open>abc\<close> with no zero byte after them; the gzip stream that zlib produces for it; the
  archive that holds the masked header (directory at offset 16) followed by the
  masked region of four bytes and the gzip stream; and what \<open>zlib.decompress\<close> does
  on that stream with window bits 31.
\<close>

definition unterminated_dcmp :: bytes where
  "unterminated_dcmp = [1, 0, 0, 0, 12, 0, 0, 0, 0, 0, 0, 0, 0, 0, 0, 0, 97, 98, 99]"

definition unterminated_gzip :: bytes where
  "unterminated_gzip = [31, 139, 8, 0, 0, 0, 0, 0, 2, 3, 99, 100, 96, 96, 224, 97, 64, 128,
     196, 164, 100, 0, 3, 120, 122, 130, 19, 0, 0, 0]"

definition unterminated_archive :: bytes where
  "unterminated_archive = [245, 85, 31, 79, 48, 19, 187, 6, 228, 129, 252, 50, 53, 151, 111,
     190, 193, 63, 91, 95, 163, 219, 103, 3, 243, 115, 170, 181, 3, 36, 68, 209, 252, 75, 244,
     125, 217, 232, 178, 58, 150, 255, 221, 22, 89, 175, 161, 176, 196, 43]"

definition unterminated_inflate :: "bytes \<Rightarrow> int \<Rightarrow> bytes option" where
  "unterminated_inflate data wbits =
     (if data = unterminated_gzip \<and> wbits = 31 then Some unterminated_dcmp else None)"

section \<open>Properties of the unmasker\<close>

lemma and_ffffffff: "(x::int) AND 0xFFFFFFFF = take_bit 32 x"
proof -
  have "(0xFFFFFFFF::int) = mask 32" by (simp add: mask_eq_exp_minus_1)
  then show ?thesis by (simp add: take_bit_eq_mask)
qed

lemma word_of_int_step:
  "(word_of_int ((seed * 0x41C64E6D + 12345) AND 0xFFFFFFFF) :: 32 word) = lcg_next (word_of_int seed)"
  by (simp add: and_ffffffff lcg_next_def wi_bintr)

lemma mask_byte_word_of_int:
  "mask_byte (word_of_int (take_bit 32 x)) = word_of_int (drop_bit 24 (take_bit 32 x))"
  unfolding mask_byte_def
  by (rule bit_word_eqI) (auto simp add: bit_simps)

text \<open>The value handed to \<open>to_bytes(1)\<close> always fits in a byte.\<close>

lemma xor_mask_range:
  "0 \<le> uint (b::byte) XOR drop_bit 24 (take_bit 32 x) \<and> uint b XOR drop_bit 24 (take_bit 32 x) < 256"
proof -
  have "uint b XOR drop_bit 24 (take_bit 32 x) = take_bit 8 (uint b XOR drop_bit 24 x)"
    by (rule bit_eqI) (auto simp add: bit_simps dest: bit_imp_le_length)
  moreover have "take_bit 8 (uint b XOR drop_bit 24 x) < 2 ^ 8"
    by (rule take_bit_int_less_exp)
  moreover have "0 \<le> take_bit 8 (uint b XOR drop_bit 24 x)"
    by simp
  ultimately show ?thesis by simp
qed

lemma word_of_int_xor_byte: "(word_of_int (uint b XOR k) :: byte) = b XOR word_of_int k"
  by (rule bit_word_eqI) (auto simp add: bit_simps)

lemma to_bytes1_xor:
  "to_bytes1 (uint b XOR drop_bit 24 ((seed * 0x41C64E6D + 12345) AND 0xFFFFFFFF))
     = Inr [b XOR mask_byte (lcg_next (word_of_int seed))]"
proof -
  let ?s = "take_bit 32 (seed * 0x41C64E6D + 12345)"
  have "word_of_int (uint b XOR drop_bit 24 ?s) = b XOR (word_of_int (drop_bit 24 ?s) :: byte)"
    by (rule word_of_int_xor_byte)
  also have "\<dots> = b XOR mask_byte (word_of_int ?s)"
    by (simp only: mask_byte_word_of_int)
  also have "(word_of_int ?s :: 32 word) = lcg_next (word_of_int seed)"
    using word_of_int_step [of seed] by (simp only: and_ffffffff)
  finally show ?thesis
    using xor_mask_range [of b "seed * 0x41C64E6D + 12345"]
    by (simp add: to_bytes1_def and_ffffffff)
qed

lemma decode_loop_unmask_from:
  "decode_loop bs seed out = Inr (out @ unmask_from (word_of_int seed) bs)"
proof (induction bs arbitrary: seed out)
  case Nil
  show ?case by simp
next
  case (Cons b bs)
  show ?case
    by (simp only: decode_loop.simps Let_def to_bytes1_xor sum.case Cons.IH
        word_of_int_step unmask_from.simps append_assoc append_Cons append_Nil)
qed

lemma word_of_int_mod32: "(word_of_int (x mod 2 ^ 32) :: 32 word) = word_of_int x"
  using wi_bintr [of 32 x, where 'a = 32] by (simp add: take_bit_eq_mod)

lemma decode_unmask: "decode b o' = Inr (unmask b o')"
  unfolding decode_def unmask_def
  by (simp only: decode_loop_unmask_from word_of_int_mod32 append_Nil)

lemma length_unmask_from: "length (unmask_from s bs) = length bs"
  by (induction bs arbitrary: s) simp_all

lemma length_unmask: "length (unmask b o') = length b"
  by (simp add: unmask_def length_unmask_from)

lemma unmask_from_involution: "unmask_from s (unmask_from s bs) = bs"
  by (induction bs arbitrary: s) (simp_all add: xor.assoc)

lemma unmask_involution: "unmask (unmask b o') o' = b"
  by (simp add: unmask_def unmask_from_involution)

text \<open>
  C1. For every buffer \<open>b\<close> and every base offset \<open>o\<close>, \<open>decode\<close> returns (it never
  raises) a buffer of the length of \<open>b\<close>, and that buffer is the one the documented
  algorithm gives: a 32-bit state starting at \<open>(0x19000000 + o) mod 2^32\<close>, advanced
  once per byte by \<open>seed * 0x41C64E6D + 12345 mod 2^32\<close> before the byte's mask, the
  top 8 bits of the updated state, is XORed onto the input byte. The result depends
  on \<open>b\<close> and \<open>o\<close> alone.
\<close>

theorem decode_refines_unmask:
  "decode b o' = Inr (unmask b o') \<and> length (unmask b o') = length b"
  by (simp only: decode_unmask length_unmask)

text \<open>
  C2. Applying \<open>decode\<close> twice with the same base offset restores the buffer, for
  every buffer, the empty one and those of one byte included.
\<close>

theorem decode_involution:
  "\<exists>m. decode b o' = Inr m \<and> decode m o' = Inr b"
  by (simp add: decode_unmask unmask_involution)

section \<open>The header decoder\<close>

lemma uint_ucast_byte: "uint (ucast (w :: 32 word) :: byte) = uint w mod 256"
  by (simp add: take_bit_eq_mod unsigned_ucast_eq)

lemma uint_drop_bit32:
  "uint (drop_bit 8 (w :: 32 word)) = uint w div 256"
  "uint (drop_bit 16 (w :: 32 word)) = uint w div 65536"
  "uint (drop_bit 24 (w :: 32 word)) = uint w div 16777216"
  by (simp_all add: drop_bit_eq_div uint_div)

lemma four_digits:
  fixes x :: int
  assumes "0 \<le> x" "x < 4294967296"
  shows "x mod 256 + 256 * (x div 256 mod 256 + 256 * (x div 65536 mod 256 +
       256 * (x div 16777216 mod 256 + 256 * 0))) = x"
proof -
  define y where "y = x div 256"
  define z where "z = y div 256"
  define t where "t = z div 256"
  define r0 where "r0 = x mod 256"
  define r1 where "r1 = y mod 256"
  define r2 where "r2 = z mod 256"
  have a: "x div 65536 = z" by (simp add: z_def y_def div_mult2_eq [symmetric])
  have b: "x div 16777216 = t" by (simp add: t_def z_def y_def div_mult2_eq [symmetric])
  have c: "t mod 256 = t" using assms by (simp add: b [symmetric])
  have x: "x = 256 * y + r0" by (simp add: y_def r0_def)
  have y: "y = 256 * z + r1" by (simp add: z_def r1_def)
  have z: "z = 256 * t + r2" by (simp add: t_def r2_def)
  have "r0 + 256 * (r1 + 256 * (r2 + 256 * (t + 256 * 0))) = x"
    using x y z by simp
  then show ?thesis
    unfolding a b c y_def [symmetric] r0_def [symmetric] r1_def [symmetric] r2_def [symmetric] .
qed

lemma le_uint_le_bytes32: "le_uint (le_bytes32 w) = uint w"
proof -
  have "uint w < 4294967296" using uint_lt2p [of w] by simp
  moreover have "0 \<le> uint w" by simp
  ultimately show ?thesis
    unfolding le_bytes32_def le_uint.simps uint_ucast_byte uint_drop_bit32
    by (rule four_digits [rotated])
qed

lemma length_le_bytes32: "length (le_bytes32 w) = 4"
  by (simp add: le_bytes32_def)

lemma unpack_IIII_pack_header:
  "unpack_IIII (pack_header s z f c) =
     Inr \<lparr>signature = uint s, size_H = uint z, offset_H = uint f, compressed_size = uint c\<rparr>"
  by (simp add: unpack_IIII_def pack_header_def length_le_bytes32 le_uint_le_bytes32)

text \<open>
  C5. A 16-byte header built from known field values (signature, size, offset,
  compressed size, each an unsigned 32-bit value, little-endian in this order) and
  masked with base offset 0 by the documented generator is decoded back to exactly
  those field values, whatever follows the header in the archive.
\<close>

theorem header_round_trip:
  "decode_header (unmask (pack_header s z f c) 0 @ rest) =
     Inr \<lparr>signature = uint s, size_H = uint z, offset_H = uint f, compressed_size = uint c\<rparr>"
proof -
  have "length (unmask (pack_header s z f c) 0) = 16"
    by (simp add: length_unmask pack_header_def length_le_bytes32)
  then have "take 16 (unmask (pack_header s z f c) 0 @ rest) = unmask (pack_header s z f c) 0"
    by simp
  then show ?thesis
    by (simp add: decode_header_def decode_unmask unmask_involution unpack_IIII_pack_header)
qed

section \<open>The directory decompressor\<close>

lemma slice_from_nonneg: "0 \<le> i \<Longrightarrow> slice_from xs i = drop (nat i) xs"
  by (simp add: slice_from_def)

text \<open>
  C6. For a header whose offset is not negative (every decoded header; the offset may
  lie within the archive or beyond it), the decompressor stage takes the archive from
  \<open>header.offset\<close> to its end, unmasks it with that absolute offset as the base
  offset, drops the first four bytes of the unmasked bytes and hands the rest to
  \<open>zlib.decompress\<close> with window bits 31; the result is what zlib inflates, or
  \<open>zlib.error\<close> where zlib rejects the stream.
\<close>

theorem decompress_directory_unmasks_suffix:
  assumes "0 \<le> offset_H h"
  shows "decompress_directory inflate buf h =
    (case inflate (drop 4 (unmask (drop (nat (offset_H h)) buf) (offset_H h))) 31 of
       None \<Rightarrow> Inl ZlibError
     | Some dcmp \<Rightarrow> Inr dcmp)"
  using assms
  by (simp add: decompress_directory_def decode_unmask slice_from_nonneg zlib_decompress_def)

theorem decompress_directory_unmasks_suffix_witness:
  "0 \<le> offset_H sample_header \<and>
   drop 4 (unmask (drop (nat (offset_H sample_header)) sample_archive) (offset_H sample_header))
     = sample_gzip \<and>
   decompress_directory sample_inflate sample_archive sample_header = Inr sample_dcmp"
proof -
  have h: "0 \<le> offset_H sample_header" by (simp add: sample_header_def)
  have u: "drop 4 (unmask (drop (nat (offset_H sample_header)) sample_archive)
      (offset_H sample_header)) = sample_gzip"
    by code_simp
  have "sample_inflate sample_gzip 31 = Some sample_dcmp"
    by (simp add: sample_inflate_def)
  with decompress_directory_unmasks_suffix [OF h, of sample_inflate sample_archive] h u
  show ?thesis by simp
qed

text \<open>
  C7, as stated, fails. The archive made of the first 16 bytes of the sample archive
  is a file the script can be given: its header decodes to the sample header, whose
  offset 16 equals the length of the archive. The decompressor stage, and with it the
  whole script, fails there with \<open>zlib.error\<close>, which is a decompression error and
  not a bounds error.
\<close>

theorem decompress_directory_offset_at_end_counterexample:
  "decode_header (take 16 sample_archive) = Inr sample_header
   \<and> offset_H sample_header = int (length (take 16 sample_archive))
   \<and> decompress_directory sample_inflate (take 16 sample_archive) sample_header
       = Inl ZlibError
   \<and> list_paths sample_inflate (take 16 sample_archive) = Inl ZlibError
   \<and> fails_with (decompress_directory sample_inflate (take 16 sample_archive) sample_header)
       DecompressionError"
  by code_simp

text \<open>
  C7, amended. For \<open>header.offset\<close> equal to the archive length or greater the stage
  makes no bounds check and reads nothing: the slice is empty, the empty buffer goes
  to \<open>zlib.decompress\<close> with window bits 31, and the result of the stage is zlib's
  result on the empty stream. Whenever zlib rejects the empty stream, the stage fails
  with \<open>zlib.error\<close>, a decompression error, and so does the whole script on an
  archive whose decoded header has such an offset.
\<close>

theorem decompress_directory_offset_beyond:
  assumes "int (length buf) \<le> offset_H h"
  shows "decompress_directory inflate buf h = zlib_decompress inflate [] 31
    \<and> (inflate [] 31 = None \<longrightarrow>
         decompress_directory inflate buf h = Inl ZlibError
         \<and> fails_with (decompress_directory inflate buf h) DecompressionError)
    \<and> (inflate [] 31 = None \<and> decode_header buf = Inr h \<longrightarrow>
         list_paths inflate buf = Inl ZlibError)"
proof -
  from assms have "slice_from buf (offset_H h) = []"
    by (simp add: slice_from_def)
  then have d: "decompress_directory inflate buf h = zlib_decompress inflate [] 31"
    by (simp add: decompress_directory_def decode_unmask unmask_def)
  have "decompress_directory inflate buf h = Inl ZlibError
      \<and> fails_with (decompress_directory inflate buf h) DecompressionError"
    if "inflate [] 31 = None"
    using that d by (simp add: zlib_decompress_def fails_with_def)
  moreover have "list_paths inflate buf = Inl ZlibError"
    if "inflate [] 31 = None \<and> decode_header buf = Inr h"
    using that d by (simp add: list_paths_def zlib_decompress_def)
  ultimately show ?thesis
    using d by blast
qed

theorem decompress_directory_offset_beyond_witness:
  "int (length (take 16 sample_archive)) \<le> offset_H sample_header
   \<and> sample_inflate [] 31 = None
   \<and> decode_header (take 16 sample_archive) = Inr sample_header
   \<and> decompress_directory sample_inflate (take 16 sample_archive) sample_header
       = Inl ZlibError
   \<and> fails_with (decompress_directory sample_inflate (take 16 sample_archive) sample_header)
       DecompressionError
   \<and> list_paths sample_inflate (take 16 sample_archive) = Inl ZlibError"
proof -
  have h: "int (length (take 16 sample_archive)) \<le> offset_H sample_header"
    by (simp add: sample_archive_def sample_header_def)
  have n: "sample_inflate [] 31 = None"
    by (simp add: sample_inflate_def sample_gzip_def)
  have k: "decode_header (take 16 sample_archive) = Inr sample_header"
    by code_simp
  from decompress_directory_offset_beyond [OF h, of sample_inflate] h n k show ?thesis
    by blast
qed

section \<open>The directory parser\<close>

lemma le_uint_nonneg: "0 \<le> le_uint bs"
  by (induction bs) simp_all

lemma unpack_from_start_nonneg:
  "0 \<le> offset \<Longrightarrow> unpack_from_start sz buffer offset =
     (if int (length buffer) < offset + int sz then Inl StructError else Inr (nat offset))"
  by (auto simp add: unpack_from_start_def Let_def)

lemma unpack_from_I_0:
  "unpack_from_I dcmp 0 = (if length dcmp < 4 then Inl StructError else Inr (le_uint (take 4 dcmp)))"
  by (simp add: unpack_from_I_def unpack_from_start_nonneg)

lemma unpack_from_III_Inl: "unpack_from_III body i = Inl err \<Longrightarrow> err = StructError"
  by (auto simp add: unpack_from_III_def unpack_from_start_def Let_def split: if_splits sum.splits)

lemma unpack_from_III_Inr:
  "0 \<le> i \<Longrightarrow> unpack_from_III body i = Inr e \<Longrightarrow> i + 12 \<le> int (length body) \<and> 0 \<le> path_offset e"
  by (auto simp add: unpack_from_III_def unpack_from_start_nonneg le_uint_nonneg split: if_splits)

lemma resolve_path_cases:
  "0 \<le> path_offset e \<Longrightarrow> resolve_path body e =
     (if int (length body) \<le> path_offset e then Inl StructError
      else if body ! nat (path_offset e) < 0x80
        then Inr [char_of (uint (body ! nat (path_offset e)))]
      else Inl UnicodeDecodeError)"
  by (simp add: resolve_path_def unpack_from_s_def unpack_from_start_nonneg decode_utf8_byte_def)

lemma resolve_path_Inl:
  "resolve_path body e = Inl err \<Longrightarrow> err = StructError \<or> err = UnicodeDecodeError"
  by (auto simp add: resolve_path_def unpack_from_s_def unpack_from_start_def Let_def
      decode_utf8_byte_def split: if_splits sum.splits)

lemma resolve_path_Inr: "resolve_path body e = Inr p \<Longrightarrow> length p = 1"
  by (auto simp add: resolve_path_def decode_utf8_byte_def split: if_splits sum.splits)

lemma entries_loop_Inl: "entries_loop body is acc = Inl err \<Longrightarrow> err = StructError"
  by (induction "is" arbitrary: acc) (auto split: sum.splits dest: unpack_from_III_Inl)

lemma entries_loop_Inr:
  "entries_loop body is acc = Inr es \<Longrightarrow>
     \<exists>es'. es = acc @ es' \<and> list_all2 (\<lambda>i e. unpack_from_III body i = Inr e) is es'"
proof (induction "is" arbitrary: acc)
  case Nil
  then show ?case by simp
next
  case (Cons i "is")
  from Cons.prems obtain en where en: "unpack_from_III body i = Inr en"
    and rest: "entries_loop body is (acc @ [en]) = Inr es"
    by (auto split: sum.splits)
  from Cons.IH [OF rest] obtain es' where "es = (acc @ [en]) @ es'"
    and "list_all2 (\<lambda>i e. unpack_from_III body i = Inr e) is es'" by blast
  with en have "es = acc @ (en # es') \<and> list_all2 (\<lambda>i e. unpack_from_III body i = Inr e) (i # is) (en # es')"
    by simp
  then show ?case by blast
qed

lemma paths_loop_Inl:
  "paths_loop body es acc = Inl err \<Longrightarrow> err = StructError \<or> err = UnicodeDecodeError"
  by (induction es arbitrary: acc) (auto split: sum.splits dest: resolve_path_Inl)

lemma paths_loop_Inr:
  "paths_loop body es acc = Inr ps \<Longrightarrow>
     \<exists>ps'. ps = acc @ ps' \<and> list_all2 (\<lambda>e p. resolve_path body e = Inr p) es ps'"
proof (induction es arbitrary: acc)
  case Nil
  then show ?case by simp
next
  case (Cons e es)
  from Cons.prems obtain p where p: "resolve_path body e = Inr p"
    and rest: "paths_loop body es (acc @ [p]) = Inr ps"
    by (auto split: sum.splits)
  from Cons.IH [OF rest] obtain ps' where "ps = (acc @ [p]) @ ps'"
    and "list_all2 (\<lambda>e p. resolve_path body e = Inr p) es ps'" by blast
  with p have "ps = acc @ (p # ps') \<and> list_all2 (\<lambda>e p. resolve_path body e = Inr p) (e # es) (p # ps')"
    by simp
  then show ?case by blast
qed

lemma py_range_12: "py_range 0 (n * 12) 12 = map (\<lambda>k. int k * 12) [0 ..< nat n]"
proof -
  have "(n * 12 - 0 + 12 - 1) div 12 = n" by simp
  then show ?thesis by (simp add: py_range_def)
qed

text \<open>What a successful run of the parser implies.\<close>

lemma parse_directory_Inr:
  assumes "parse_directory dcmp = Inr ps"
  shows "\<exists>es. 4 \<le> length dcmp
    \<and> list_all2 (\<lambda>i e. unpack_from_III (drop 4 dcmp) i = Inr e)
         (map (\<lambda>k. int k * 12) [0 ..< nat (le_uint (take 4 dcmp))]) es
    \<and> list_all2 (\<lambda>e p. resolve_path (drop 4 dcmp) e = Inr p) es ps"
proof -
  from assms have len: "4 \<le> length dcmp"
    by (auto simp add: parse_directory_def unpack_from_I_0 split: if_splits)
  with assms obtain es where
    es: "entries_loop (drop 4 dcmp) (py_range 0 (le_uint (take 4 dcmp) * 12) 12) [] = Inr es"
    and ps: "paths_loop (drop 4 dcmp) es [] = Inr ps"
    by (auto simp add: parse_directory_def unpack_from_I_0 Let_def split: sum.splits)
  from entries_loop_Inr [OF es] paths_loop_Inr [OF ps] len show ?thesis
    by (auto simp add: py_range_12)
qed

lemma parse_directory_Inl:
  "parse_directory dcmp = Inl err \<Longrightarrow> err = StructError \<or> err = UnicodeDecodeError"
  by (auto simp add: parse_directory_def unpack_from_I_0 Let_def split: if_splits sum.splits
      dest: entries_loop_Inl paths_loop_Inl)

lemma parse_directory_fails_with:
  "fails_with (parse_directory dcmp) FormatError \<longleftrightarrow> (\<forall>ps. parse_directory dcmp \<noteq> Inr ps)"
  by (cases "parse_directory dcmp") (auto simp add: fails_with_def dest: parse_directory_Inl)

text \<open>
  C9. A directory whose first four bytes decode to the entry count 0 parses to the
  empty list of paths, without an error, also when nothing follows the count.
\<close>

theorem parse_directory_zero_entries:
  assumes "4 \<le> length dcmp" and "le_uint (take 4 dcmp) = 0"
  shows "parse_directory dcmp = Inr []"
  using assms by (simp add: parse_directory_def unpack_from_I_0 py_range_def)

theorem parse_directory_zero_entries_witness:
  "4 \<le> length [0, 0, 0, 0 :: byte] \<and> le_uint (take 4 [0, 0, 0, 0]) = 0
   \<and> parse_directory [0, 0, 0, 0] = Inr []"
proof -
  have a: "4 \<le> length [0, 0, 0, 0 :: byte]" by simp
  have b: "le_uint (take 4 [0, 0, 0, 0]) = 0" by simp
  from parse_directory_zero_entries [OF a b] a b show ?thesis by blast
qed

text \<open>
  C3 does not hold of the code. In the sample directory the bytes from
  \<open>body[24]\<close> up to the first zero byte are \<open>abc\<close>, and the path the script
  resolves for the entry with \<open>path_offset = 24\<close> is \<open>a\<close>: the format \<open>s\<close>
  reads one byte.
\<close>

theorem resolve_path_reads_one_byte:
  "takeWhile (\<lambda>b. b \<noteq> 0) (drop 24 (drop 4 sample_dcmp)) = [97, 98, 99]
   \<and> resolve_path (drop 4 sample_dcmp) \<lparr>path_offset = 24, offset_E = 100, size_E = 7\<rparr> = Inr ''a''"
  by code_simp

text \<open>
  C4 does not hold of the code. The sample directory declares two entries whose
  null-terminated strings are \<open>abc\<close> and \<open>de\<close>; the script's parser returns
  \<open>a\<close> and \<open>d\<close>.
\<close>

theorem parse_directory_first_bytes_only:
  "parse_directory sample_dcmp = Inr [''a'', ''d'']"
  by code_simp

lemma parse_directory_table_fits:
  assumes "parse_directory dcmp = Inr ps"
  shows "4 + 12 * le_uint (take 4 dcmp) \<le> int (length dcmp)"
proof -
  let ?n = "le_uint (take 4 dcmp)"
  from parse_directory_Inr [OF assms] obtain es where len: "4 \<le> length dcmp"
    and es: "list_all2 (\<lambda>i e. unpack_from_III (drop 4 dcmp) i = Inr e)
         (map (\<lambda>k. int k * 12) [0 ..< nat ?n]) es"
    by blast
  show ?thesis
  proof (cases "0 < ?n")
    case False
    with len show ?thesis by simp
  next
    case True
    then have k: "nat ?n - 1 < length (map (\<lambda>k. int k * 12) [0 ..< nat ?n])" by simp
    from list_all2_nthD [OF es k]
    have "unpack_from_III (drop 4 dcmp) (int (nat ?n - 1) * 12) = Inr (es ! (nat ?n - 1))"
      using True by simp
    from unpack_from_III_Inr [OF _ this] have "int (nat ?n - 1) * 12 + 12 \<le> int (length (drop 4 dcmp))"
      by simp
    with True len show ?thesis by (simp add: of_nat_diff)
  qed
qed

lemma parse_directory_entry_resolves:
  assumes ok: "parse_directory dcmp = Inr ps"
    and i: "0 \<le> i" "i < le_uint (take 4 dcmp)"
    and e: "unpack_from_III (drop 4 dcmp) (12 * i) = Inr e"
  shows "resolve_path (drop 4 dcmp) e = Inr (ps ! nat i)"
proof -
  let ?n = "le_uint (take 4 dcmp)"
  from parse_directory_Inr [OF ok] obtain es where
    es: "list_all2 (\<lambda>i e. unpack_from_III (drop 4 dcmp) i = Inr e)
         (map (\<lambda>k. int k * 12) [0 ..< nat ?n]) es"
    and ps: "list_all2 (\<lambda>e p. resolve_path (drop 4 dcmp) e = Inr p) es ps"
    by blast
  from i have k: "nat i < length (map (\<lambda>k. int k * 12) [0 ..< nat ?n])" by simp
  from list_all2_nthD [OF es k] i e have ei: "es ! nat i = e"
    by (simp add: mult.commute)
  from es k have "nat i < length es" by (simp add: list_all2_lengthD [symmetric])
  from list_all2_nthD [OF ps this] ei show ?thesis
    by simp
qed

lemma parse_directory_path_byte:
  assumes ok: "parse_directory dcmp = Inr ps"
    and i: "0 \<le> i" "i < le_uint (take 4 dcmp)"
    and e: "unpack_from_III (drop 4 dcmp) (12 * i) = Inr e"
  shows "path_offset e < int (length (drop 4 dcmp))
    \<and> drop 4 dcmp ! nat (path_offset e) < 0x80"
proof -
  from unpack_from_III_Inr [OF _ e] i have "0 \<le> path_offset e" by simp
  from resolve_path_cases [OF this, of "drop 4 dcmp"]
    parse_directory_entry_resolves [OF ok i e]
  show ?thesis
    by (simp split: if_splits)
qed

text \<open>
  C8 does not hold of the code. In the directory whose one entry has
  \<open>path_offset = 12\<close> and whose string table is \<open>abc\<close> with no zero byte, the
  string that starts at \<open>body[12]\<close> has no terminator before the end of the buffer,
  so its slice would read past the end. The parser does not fail: it returns the one
  path \<open>a\<close>, and so does the whole script on the archive that holds this directory.
\<close>

theorem parse_directory_unterminated_string:
  "unpack_from_I unterminated_dcmp 0 = Inr 1
   \<and> unpack_from_III (drop 4 unterminated_dcmp) 0
       = Inr \<lparr>path_offset = 12, offset_E = 0, size_E = 0\<rparr>
   \<and> takeWhile (\<lambda>b. b \<noteq> 0) (drop 12 (drop 4 unterminated_dcmp))
       = drop 12 (drop 4 unterminated_dcmp)
   \<and> parse_directory unterminated_dcmp = Inr [''a'']
   \<and> \<not> fails_with (parse_directory unterminated_dcmp) FormatError
   \<and> list_paths unterminated_inflate unterminated_archive = Inr [''a'']"
  by code_simp

text \<open>
  The failures that the parser does report. It fails with a format error
  (\<open>struct.error\<close>, or \<open>UnicodeDecodeError\<close> from an earlier path) whenever the
  directory is shorter than four bytes, or the entry table that its count announces
  does not fit in the buffer, or some entry of the table has a path offset at or
  beyond the end of the buffer.
\<close>

theorem parse_directory_format_error:
  assumes "length dcmp < 4
     \<or> (\<exists>n. unpack_from_I dcmp 0 = Inr n \<and> int (length dcmp) < 4 + 12 * n)
     \<or> (\<exists>n i e. unpack_from_I dcmp 0 = Inr n \<and> 0 \<le> i \<and> i < n
           \<and> unpack_from_III (drop 4 dcmp) (12 * i) = Inr e
           \<and> int (length (drop 4 dcmp)) \<le> path_offset e)"
  shows "fails_with (parse_directory dcmp) FormatError"
proof -
  have "parse_directory dcmp \<noteq> Inr ps" for ps
  proof
    assume ok: "parse_directory dcmp = Inr ps"
    from parse_directory_Inr [OF ok] have len: "4 \<le> length dcmp" by blast
    then have n: "unpack_from_I dcmp 0 = Inr (le_uint (take 4 dcmp))"
      by (simp add: unpack_from_I_0)
    from assms len n parse_directory_table_fits [OF ok]
    obtain i e where "0 \<le> i" "i < le_uint (take 4 dcmp)"
      "unpack_from_III (drop 4 dcmp) (12 * i) = Inr e"
      "int (length (drop 4 dcmp)) \<le> path_offset e"
      by auto
    with parse_directory_path_byte [OF ok, of i e] show False by simp
  qed
  then show ?thesis by (simp add: parse_directory_fails_with)
qed

theorem parse_directory_format_error_witness:
  "fails_with (parse_directory [2, 0, 0]) FormatError
   \<and> fails_with (parse_directory ([3, 0, 0, 0] @ drop 4 sample_dcmp)) FormatError
   \<and> fails_with (parse_directory (take 32 sample_dcmp)) FormatError"
proof -
  have a: "fails_with (parse_directory [2, 0, 0]) FormatError"
    by (rule parse_directory_format_error) simp
  have "unpack_from_I ([3, 0, 0, 0] @ drop 4 sample_dcmp) 0 = Inr 3
      \<and> int (length ([3, 0, 0, 0] @ drop 4 sample_dcmp)) < 4 + 12 * 3"
    by code_simp
  then have b: "fails_with (parse_directory ([3, 0, 0, 0] @ drop 4 sample_dcmp)) FormatError"
    by (intro parse_directory_format_error disjI2 disjI1 exI [of _ 3])
  have "unpack_from_I (take 32 sample_dcmp) 0 = Inr 2 \<and> (0::int) \<le> 1 \<and> (1::int) < 2
      \<and> unpack_from_III (drop 4 (take 32 sample_dcmp)) (12 * 1)
          = Inr \<lparr>path_offset = 28, offset_E = 107, size_E = 9\<rparr>
      \<and> int (length (drop 4 (take 32 sample_dcmp)))
          \<le> path_offset \<lparr>path_offset = 28, offset_E = 107, size_E = 9\<rparr>"
    by code_simp
  then have c: "fails_with (parse_directory (take 32 sample_dcmp)) FormatError"
    by (intro parse_directory_format_error disjI2 exI [of _ 2] exI [of _ 1]
        exI [of _ "\<lparr>path_offset = 28, offset_E = 107, size_E = 9\<rparr>"])
  from a b c show ?thesis by blast
qed

lemma list_all2_resolve_lengths:
  "list_all2 (\<lambda>e p. resolve_path body e = Inr p) es ps \<Longrightarrow> \<forall>p\<in>set ps. length p = 1"
  by (induction es ps rule: list_all2_induct) (auto dest: resolve_path_Inr)

text \<open>
  C10. Whenever the script, or its parser alone, returns paths, each of them has
  exactly one character; the path of an entry whose offset lies in the buffer is
  the one byte at \<open>body[path_offset]\<close> decoded as UTF-8: the character with that code
  when the byte is below \<open>0x80\<close>, and \<open>UnicodeDecodeError\<close> otherwise; and the
  parser fails when the byte of some entry of the table is \<open>0x80\<close> or above.
\<close>

theorem paths_are_single_characters:
  "(list_paths inflate buf = Inr ps \<longrightarrow> (\<forall>p\<in>set ps. length p = 1))
   \<and> (parse_directory dcmp = Inr ps' \<longrightarrow> (\<forall>p\<in>set ps'. length p = 1))
   \<and> (0 \<le> path_offset e \<and> path_offset e < int (length body) \<longrightarrow>
        resolve_path body e =
          (if body ! nat (path_offset e) < 0x80
           then Inr [char_of (uint (body ! nat (path_offset e)))]
           else Inl UnicodeDecodeError))
   \<and> (unpack_from_I dcmp 0 = Inr n \<and> 0 \<le> i \<and> i < n
        \<and> unpack_from_III (drop 4 dcmp) (12 * i) = Inr e'
        \<and> path_offset e' < int (length (drop 4 dcmp))
        \<and> 0x80 \<le> drop 4 dcmp ! nat (path_offset e') \<longrightarrow>
        (\<exists>err. parse_directory dcmp = Inl err))"
proof -
  have p: "\<forall>p\<in>set qs. length p = 1" if "parse_directory d = Inr qs" for d qs
    using parse_directory_Inr [OF that] list_all2_resolve_lengths by blast
  have "\<forall>p\<in>set ps. length p = 1" if "list_paths inflate buf = Inr ps"
  proof -
    from that obtain d where "parse_directory d = Inr ps"
      by (auto simp add: list_paths_def split: sum.splits)
    then show ?thesis by (rule p)
  qed
  moreover have "resolve_path body e =
          (if body ! nat (path_offset e) < 0x80
           then Inr [char_of (uint (body ! nat (path_offset e)))]
           else Inl UnicodeDecodeError)"
    if "0 \<le> path_offset e \<and> path_offset e < int (length body)"
    using that resolve_path_cases [of e body] by simp
  moreover have "\<exists>err. parse_directory dcmp = Inl err"
    if h: "unpack_from_I dcmp 0 = Inr n \<and> 0 \<le> i \<and> i < n
        \<and> unpack_from_III (drop 4 dcmp) (12 * i) = Inr e'
        \<and> path_offset e' < int (length (drop 4 dcmp))
        \<and> 0x80 \<le> drop 4 dcmp ! nat (path_offset e')"
  proof (cases "parse_directory dcmp")
    case (Inl err)
    then show ?thesis by blast
  next
    case (Inr qs)
    from h have "n = le_uint (take 4 dcmp)"
      by (simp add: unpack_from_I_0 split: if_splits)
    with h parse_directory_path_byte [OF Inr, of i e']
    have "drop 4 dcmp ! nat (path_offset e') < 0x80"
      by simp
    moreover from h have "0x80 \<le> drop 4 dcmp ! nat (path_offset e')"
      by simp
    ultimately show ?thesis
      by (auto dest: leD)
  qed
  ultimately show ?thesis using p by blast
qed

theorem paths_are_single_characters_witness:
  "list_paths sample_inflate sample_archive = Inr [''a'', ''d'']
   \<and> parse_directory sample_dcmp = Inr [''a'', ''d'']
   \<and> map length [''a'', ''d''] = [1, 1]
   \<and> resolve_path [0xC3, 0xA9, 0] \<lparr>path_offset = 0, offset_E = 0, size_E = 0\<rparr>
       = Inl UnicodeDecodeError
   \<and> (\<exists>err. parse_directory
        [1, 0, 0, 0, 12, 0, 0, 0, 16, 0, 0, 0, 2, 0, 0, 0, 0xC3, 0xA9, 0] = Inl err)"
proof -
  let ?d = "[1, 0, 0, 0, 12, 0, 0, 0, 16, 0, 0, 0, 2, 0, 0, 0, 0xC3, 0xA9, 0] :: bytes"
  let ?e = "\<lparr>path_offset = 12, offset_E = 16, size_E = 2\<rparr>"
  have a: "list_paths sample_inflate sample_archive = Inr [''a'', ''d'']"
    by code_simp
  have b: "parse_directory sample_dcmp = Inr [''a'', ''d'']"
    by code_simp
  have c: "0 \<le> path_offset \<lparr>path_offset = 0, offset_E = 0, size_E = 0\<rparr>
      \<and> path_offset \<lparr>path_offset = 0, offset_E = 0, size_E = 0\<rparr>
          < int (length [0xC3, 0xA9, 0 :: byte])"
    by simp
  have d: "unpack_from_I ?d 0 = Inr 1 \<and> (0::int) \<le> 0 \<and> (0::int) < 1
      \<and> unpack_from_III (drop 4 ?d) (12 * 0) = Inr ?e
      \<and> path_offset ?e < int (length (drop 4 ?d))
      \<and> 0x80 \<le> drop 4 ?d ! nat (path_offset ?e)"
    by code_simp
  from paths_are_single_characters [of sample_inflate sample_archive "[''a'', ''d'']"
      sample_dcmp "[''a'', ''d'']" "\<lparr>path_offset = 0, offset_E = 0, size_E = 0\<rparr>"
      "[0xC3, 0xA9, 0]"] a b c
  have "map length [''a'', ''d''] = [1, 1]
    \<and> resolve_path [0xC3, 0xA9, 0] \<lparr>path_offset = 0, offset_E = 0, size_E = 0\<rparr>
       = Inl UnicodeDecodeError"
    by simp
  moreover from paths_are_single_characters [of sample_inflate sample_archive "[]"
      ?d "[]" ?e "[]" 1 0 ?e] d
  have "\<exists>err. parse_directory ?d = Inl err"
    by blast
  ultimately show ?thesis using a b by blast
qed

end
